theory Spec2Isabelle
  imports Main
begin

section \<open>Python values, strings and errors\<close>

text \<open>
  The renderers and the rc.conf helpers of cloud-init's BSD support are embedded as HOL
  functions. Python strings are \<^typ>\<open>string\<close>: a character is a code point from 0 to
  255 of a Python 3 \<open>str\<close>, and the character classes are those of Python 3 on these
  code points. A value that may be Python's \<open>None\<close> is an \<^typ>\<open>'a option\<close>. Every
  exception the code can raise is a constructor of \<open>py_error\<close>, and a function that may
  raise returns \<open>py_error + 'a\<close>.
\<close>

datatype py_error = IndexError | TypeError | IOError | ValueError | ProcessExecutionError

definition LF :: char where
  "LF = CHR 0x0A"

definition CR :: char where
  "CR = CHR 0x0D"

definition DQ :: char where
  "DQ = CHR 0x22"

definition SQ :: char where
  "SQ = CHR 0x27"

text \<open>
  \<open>\<bsol>s\<close> of the \<open>re\<close> module and \<open>str.isspace\<close>: the ASCII white space, the separators
  \<open>0x1c\<close> to \<open>0x1f\<close>, the next-line character \<open>0x85\<close> and the no-break space \<open>0xa0\<close>.
\<close>

definition is_space :: "char \<Rightarrow> bool" where
  "is_space c = (let n = (of_char c :: nat) in
     (9 \<le> n \<and> n \<le> 13) \<or> (28 \<le> n \<and> n \<le> 32) \<or> n = 133 \<or> n = 160)"

text \<open>
  \<open>\<bsol>d\<close> (the decimal digits) and \<open>\<bsol>w\<close> (the underscore and every character that
  \<open>str.isalnum\<close> accepts, which among the code points above 127 are the letters, the
  superscript digits and the fractions).
\<close>

definition is_digit :: "char \<Rightarrow> bool" where
  "is_digit c = (let n = (of_char c :: nat) in 48 \<le> n \<and> n \<le> 57)"

definition is_word :: "char \<Rightarrow> bool" where
  "is_word c = (let n = (of_char c :: nat) in
     (48 \<le> n \<and> n \<le> 57) \<or> (65 \<le> n \<and> n \<le> 90) \<or> n = 95 \<or> (97 \<le> n \<and> n \<le> 122) \<or>
     n = 170 \<or> n = 178 \<or> n = 179 \<or> n = 181 \<or> n = 185 \<or> n = 186 \<or>
     (188 \<le> n \<and> n \<le> 190) \<or> (192 \<le> n \<and> n \<le> 214) \<or> (216 \<le> n \<and> n \<le> 246) \<or>
     (248 \<le> n \<and> n \<le> 255))"

text \<open>The characters at which \<open>str.splitlines\<close> ends a line.\<close>

definition is_linebreak :: "char \<Rightarrow> bool" where
  "is_linebreak c = (let n = (of_char c :: nat) in
     (10 \<le> n \<and> n \<le> 13) \<or> (28 \<le> n \<and> n \<le> 30) \<or> n = 133)"

definition is_quote :: "char \<Rightarrow> bool" where
  "is_quote c = (c = DQ \<or> c = SQ)"

text \<open>\<open>str.rstrip()\<close> with no argument.\<close>

definition rstrip :: "string \<Rightarrow> string" where
  "rstrip s = rev (dropWhile is_space (rev s))"

text \<open>
  \<open>str.splitlines()\<close>: \<open>acc\<close> holds the current line, reversed. A line break ends the
  current line, \<open>\<bsol>r\<bsol>n\<close> counts as one break, and no empty last line is produced.
\<close>

fun splitlines_acc :: "string \<Rightarrow> string \<Rightarrow> string list" where
  "splitlines_acc acc [] = (if acc = [] then [] else [rev acc])"
| "splitlines_acc acc (c # cs) =
     (if is_linebreak c then
        (case cs of
           d # ds \<Rightarrow> if c = CR \<and> d = LF then rev acc # splitlines_acc [] ds
                     else rev acc # splitlines_acc [] cs
         | [] \<Rightarrow> rev acc # splitlines_acc [] cs)
      else splitlines_acc (c # acc) cs)"

definition splitlines :: "string \<Rightarrow> string list" where
  "splitlines s = splitlines_acc [] s"

text \<open>\<open>'%s' % v\<close>: \<open>None\<close> prints as the word \<open>None\<close>.\<close>

definition py_str :: "string option \<Rightarrow> string" where
  "py_str v = (case v of None \<Rightarrow> ''None'' | Some s \<Rightarrow> s)"

section \<open>The rc.conf store (\<open>distros/freebsd.py\<close>, \<open>net/freebsd.py\<close>)\<close>

text \<open>
  A Python \<open>dict\<close> keeps its keys in insertion order, and \<open>conf.items()\<close> is written back
  in that order: the store is an association list. \<open>dict_set\<close> is \<open>conf[key] = val\<close>: an
  existing key keeps its place, a new one goes to the end.
\<close>

type_synonym 'v pydict = "(string \<times> 'v) list"

fun dict_set :: "string \<Rightarrow> 'v \<Rightarrow> 'v pydict \<Rightarrow> 'v pydict" where
  "dict_set k v [] = [(k, v)]"
| "dict_set k v (p # ps) = (if fst p = k then (k, v) # ps else p # dict_set k v ps)"

definition dict_get :: "'v pydict \<Rightarrow> string \<Rightarrow> 'v option" where
  "dict_get d k = map_of d k"

text \<open>
  \<open>RE_MATCH = re.compile(r'^(\<bsol>w+)\<bsol>s*=\<bsol>s*(.*)\<bsol>s*')\<close> and \<open>RE_MATCH.match(line)\<close>. No
  word character is a space or \<open>=\<close>, so the greedy \<open>\<bsol>w+\<close> never gives a character back;
  \<open>(.*)\<close> takes every character up to a newline. The result is \<open>(group(1), group(2))\<close>.
\<close>

definition RE_MATCH :: "string \<Rightarrow> (string \<times> string) option" where
  "RE_MATCH line =
     (let k = takeWhile is_word line in
      if k = [] then None
      else (case dropWhile is_space (dropWhile is_word line) of
              [] \<Rightarrow> None
            | c # r \<Rightarrow> if c = CHR ''=''
                       then Some (k, takeWhile (\<lambda>x. x \<noteq> LF) (dropWhile is_space r))
                       else None))"

text \<open>
  The body of the loop of \<open>loadrcconf\<close> after the match, on \<open>val = m.group(2).rstrip()\<close>:
  \<open>val[0]\<close> and \<open>val[-1]\<close> raise \<open>IndexError\<close> on the empty string. The result is
  the value after the two slices.
\<close>

definition kill_quotes :: "string \<Rightarrow> py_error + string" where
  "kill_quotes val =
     (case val of
        [] \<Rightarrow> Inl IndexError
      | c # cs \<Rightarrow>
          (let val1 = (if is_quote c then cs else val) in
           if val1 = [] then Inl IndexError
           else Inr (if is_quote (last val1) then butlast val1 else val1)))"

text \<open>The loop of \<open>loadrcconf\<close> over the lines of the file.\<close>

fun loadrcconf_lines :: "string pydict \<Rightarrow> string list \<Rightarrow> py_error + string pydict" where
  "loadrcconf_lines conf [] = Inr conf"
| "loadrcconf_lines conf (line # lines) =
     (case RE_MATCH line of
        None \<Rightarrow> loadrcconf_lines conf lines
      | Some (g1, g2) \<Rightarrow>
          (case kill_quotes (rstrip g2) of
             Inl e \<Rightarrow> Inl e
           | Inr val \<Rightarrow>
               if length val = 0 then loadrcconf_lines conf lines
               else loadrcconf_lines (dict_set (rstrip g1) val conf) lines))"

text \<open>
  \<open>loadrcconf\<close>: the argument is what \<open>util.load_file(self.rc_conf_fn)\<close> finds, \<open>None\<close>
  when the file cannot be read (\<open>IOError\<close>).
\<close>

definition loadrcconf :: "string option \<Rightarrow> py_error + string pydict" where
  "loadrcconf file =
     (case file of
        None \<Rightarrow> Inl IOError
      | Some text \<Rightarrow> loadrcconf_lines [] (splitlines text))"

text \<open>\<open>readrcconf\<close>: a missing key gives \<open>None\<close>.\<close>

definition readrcconf :: "string option \<Rightarrow> string \<Rightarrow> py_error + string option" where
  "readrcconf file key =
     (case loadrcconf file of Inl e \<Rightarrow> Inl e | Inr conf \<Rightarrow> Inr (dict_get conf key))"

section \<open>The resolver file\<close>

text \<open>
  Modelled from the spec: the class \<open>ResolvConf\<close> of
  \<open>cloudinit/distros/parsers/resolv_conf.py\<close> is not part of these sources. The spec
  gives a directive as a nameserver address or a search domain; a line that is neither
  is kept as it is.
\<close>

datatype directive = Nameserver string | SearchDomain string | Unrecognized string

type_synonym resolvconf = "directive list"

text \<open>
  Modelled from the spec: \<open>ResolvConf.add_nameserver\<close>, absent from these sources. The
  spec says that it fails with a duplicate error when the address is already present and
  appends it otherwise; the renderers catch \<open>ValueError\<close>.
\<close>

definition add_nameserver :: "string \<Rightarrow> resolvconf \<Rightarrow> py_error + resolvconf" where
  "add_nameserver a rc =
     (if Nameserver a \<in> set rc then Inl ValueError else Inr (rc @ [Nameserver a]))"

text \<open>
  Modelled from the spec: \<open>ResolvConf.add_search_domain\<close>, absent from these sources,
  with the duplicate policy of \<open>add_nameserver\<close>.
\<close>

definition add_search_domain :: "string \<Rightarrow> resolvconf \<Rightarrow> py_error + resolvconf" where
  "add_search_domain d rc =
     (if SearchDomain d \<in> set rc then Inl ValueError else Inr (rc @ [SearchDomain d]))"

text \<open>
  Modelled from the spec: \<open>str(resolvconf)\<close>, absent from these sources. Every directive
  is one line, in the order of the configuration, new entries after the original ones.
\<close>

definition serialize_directive :: "directive \<Rightarrow> string" where
  "serialize_directive d =
     (case d of
        Nameserver a \<Rightarrow> ''nameserver '' @ a
      | SearchDomain s \<Rightarrow> ''search '' @ s
      | Unrecognized l \<Rightarrow> l)"

definition serialize :: "resolvconf \<Rightarrow> string list" where
  "serialize rc = map serialize_directive rc"

section \<open>Writing rc.conf (\<open>updatercconf\<close>)\<close>

text \<open>
  The part of the machine the code reads and writes. \<open>rc_conf\<close> is the text of
  \<open>/etc/rc.conf\<close>, \<open>None\<close> when it cannot be read; \<open>rc_writes\<close> counts the calls of
  \<open>util.write_file\<close> on it, so that a rewrite with the same text is still seen;
  \<open>ifconfig_out\<close> is what \<open>ifconfig -a\<close> prints, \<open>None\<close> when the command fails;
  \<open>rc_calls\<close> lists the calls of \<open>netbsd_util.set_rc_config_value\<close>, a function that
  is not part of these sources; \<open>resolv_conf\<close> is \<open>/etc/resolv.conf\<close> as \<open>ResolvConf\<close>
  parses it, \<open>None\<close> when it cannot be read; \<open>cmds\<close> lists the other commands run
  through \<open>util.subp\<close>. That a write or a service command fails is not modelled.
\<close>

record host =
  rc_conf :: "string option"
  rc_writes :: nat
  ifconfig_out :: "string option"
  rc_calls :: "(string \<times> string) list"
  resolv_conf :: "resolvconf option"
  cmds :: "string list list"

text \<open>\<open>'%s="%s"\<bsol>n' % keyval\<close> for every item, in the order of the dict.\<close>

definition rcconf_text :: "string option pydict \<Rightarrow> string" where
  "rcconf_text conf = concat (map (\<lambda>(k, v). k @ CHR ''='' # DQ # py_str v @ [DQ, LF]) conf)"

text \<open>
  The \<open>for item in conf.keys()\<close> loop of \<open>updatercconf\<close>: the pair is
  \<open>(conf, config_changed)\<close>.
\<close>

fun change_items ::
  "string list \<Rightarrow> string \<Rightarrow> string option \<Rightarrow> string option pydict \<times> bool
   \<Rightarrow> string option pydict \<times> bool" where
  "change_items [] key val cc = cc"
| "change_items (item # items) key val (conf, config_changed) =
     (if item = key \<and> dict_get conf item \<noteq> Some val
      then change_items items key val (dict_set item val conf, True)
      else change_items items key val (conf, config_changed))"

text \<open>
  \<open>updatercconf(key, value)\<close>. The values loaded are strings; \<open>value\<close> may be \<open>None\<close>.
  The file is written only when \<open>config_changed\<close> is set.
\<close>

definition updatercconf :: "string \<Rightarrow> string option \<Rightarrow> host \<Rightarrow> py_error + host" where
  "updatercconf key val h =
     (case loadrcconf (rc_conf h) of
        Inl e \<Rightarrow> Inl e
      | Inr loaded \<Rightarrow>
          (let conf = map (\<lambda>(k, v). (k, Some v)) loaded;
               (conf', config_changed) =
                 (if key \<notin> set (map fst conf) then (dict_set key val conf, True)
                  else change_items (map fst conf) key val (conf, False))
           in if config_changed
              then Inr (h\<lparr>rc_conf := Some (rcconf_text conf'), rc_writes := Suc (rc_writes h)\<rparr>)
              else Inr h))"

section \<open>Interface names from \<open>ifconfig -a\<close> (\<open>_get_ifname_by_mac\<close>)\<close>

text \<open>
  For a run of non-space characters, the longest non-empty prefix that is followed by a
  colon inside the run, with what follows that colon: the greedy \<open>\<bsol>S+\<close> gives
  characters back until a \<open>:\<close> comes next.
\<close>

definition rsplit_colon :: "string \<Rightarrow> (string \<times> string) option" where
  "rsplit_colon run =
     (case run of
        [] \<Rightarrow> None
      | c # t \<Rightarrow>
          if CHR '':'' \<in> set t
          then (let after = rev (takeWhile (\<lambda>x. x \<noteq> CHR '':'') (rev t))
                in Some (c # take (length t - length after - 1) t, after))
          else None)"

text \<open>
  A match of \<open>(^\<bsol>S+|\<bsol>n\<bsol>S+):\<close> at the head of \<open>s\<close>; \<open>at_start\<close> says that \<open>s\<close> is the
  whole text, where alone \<open>^\<close> matches. The result is the group and the text after the
  match.
\<close>

definition match_ifname :: "bool \<Rightarrow> string \<Rightarrow> (string \<times> string) option" where
  "match_ifname at_start s =
     (let alt1 = (if at_start
                  then (case rsplit_colon (takeWhile (\<lambda>x. \<not> is_space x) s) of
                          Some (g, a) \<Rightarrow> Some (g, a @ dropWhile (\<lambda>x. \<not> is_space x) s)
                        | None \<Rightarrow> None)
                  else None)
      in case alt1 of
           Some r \<Rightarrow> Some r
         | None \<Rightarrow>
             (case s of
                [] \<Rightarrow> None
              | c # t \<Rightarrow>
                  if c = LF
                  then (case rsplit_colon (takeWhile (\<lambda>x. \<not> is_space x) t) of
                          Some (g, a) \<Rightarrow> Some (LF # g, a @ dropWhile (\<lambda>x. \<not> is_space x) t)
                        | None \<Rightarrow> None)
                  else None))"

text \<open>
  \<open>re.split(r'(^\<bsol>S+|\<bsol>n\<bsol>S+):', out)\<close>: the pieces between the matches, each match's group
  in between. \<open>acc\<close> is the current piece, reversed.
\<close>

function re_split_acc :: "bool \<Rightarrow> string \<Rightarrow> string \<Rightarrow> string list" where
  "re_split_acc at_start acc [] = [rev acc]"
| "re_split_acc at_start acc (c # cs) =
     (case match_ifname at_start (c # cs) of
        Some (g, rest) \<Rightarrow> rev acc # g # re_split_acc False [] rest
      | None \<Rightarrow> re_split_acc False (c # acc) cs)"
  by pat_completeness auto
termination
proof (relation "measure (\<lambda>(b, acc, s). length s)")
  fix at_start :: bool and acc c cs x2 x y
  assume m: "match_ifname at_start (c # cs) = Some x2" and x2: "(x, y) = x2"
  have run: "length a < length r" if "rsplit_colon r = Some (g, a)" for r g a
  proof -
    from that obtain d t where r: "r = d # t"
      and a: "a = rev (takeWhile (\<lambda>x. x \<noteq> CHR '':'') (rev t))"
      by (auto simp: rsplit_colon_def Let_def split: list.splits if_splits)
    have "length (takeWhile (\<lambda>x. x \<noteq> CHR '':'') (rev t)) \<le> length t"
      using length_takeWhile_le[of _ "rev t"] by simp
    with r a show ?thesis by simp
  qed
  have tot: "\<And>P (s::string). length (takeWhile P s) + length (dropWhile P s) = length s"
    by (metis length_append takeWhile_dropWhile_id)
  have "length y < length (c # cs)"
    using m x2 run tot[of "\<lambda>x. \<not> is_space x" "c # cs"] tot[of "\<lambda>x. \<not> is_space x" cs]
    by (fastforce simp: match_ifname_def Let_def split: option.splits if_splits prod.splits
        simp del: takeWhile.simps dropWhile.simps)
  then show "((False, [], y), at_start, acc, c # cs) \<in> measure (\<lambda>(b, acc, s). length s)"
    by simp
qed auto

definition re_split :: "string \<Rightarrow> string list" where
  "re_split out = re_split_acc True [] out"

text \<open>The class \<open>[\<bsol>da-f:]\<close>.\<close>

definition is_machex :: "char \<Rightarrow> bool" where
  "is_machex c = (let n = (of_char c :: nat) in (48 \<le> n \<and> n \<le> 58) \<or> (97 \<le> n \<and> n \<le> 102))"

text \<open>
  \<open>re.search(kw + r'\<bsol>s([\<bsol>da-f:]{17})', block)\<close>, with \<open>kw\<close> the word \<open>ether\<close> on FreeBSD
  and \<open>address:\<close> on NetBSD: the group of the leftmost match.
\<close>

definition match_mac :: "string \<Rightarrow> string \<Rightarrow> string option" where
  "match_mac kw s =
     (let n = length kw; g = take 17 (drop (Suc n) s)
      in if take n s = kw \<and> n + 18 \<le> length s \<and> is_space (s ! n) \<and> list_all is_machex g
         then Some g else None)"

fun re_search_mac :: "string \<Rightarrow> string \<Rightarrow> string option" where
  "re_search_mac kw [] = None"
| "re_search_mac kw (c # cs) =
     (case match_mac kw (c # cs) of Some g \<Rightarrow> Some g | None \<Rightarrow> re_search_mac kw cs)"

text \<open>
  The \<open>while blocks\<close> loop, on the blocks in their order after the first was dropped: two
  \<open>pop()\<close> per round, the second of which raises on an empty list. The function returns
  \<open>None\<close> when the loop ends without a match.
\<close>

fun ifname_loop :: "string \<Rightarrow> string list \<Rightarrow> string option \<Rightarrow> py_error + string option" where
  "ifname_loop kw [] mac = Inr None"
| "ifname_loop kw [ifname] mac = Inl IndexError"
| "ifname_loop kw (ifname # blk # blocks) mac =
     (case re_search_mac kw blk of
        Some g \<Rightarrow> if Some g = mac then Inr (Some ifname) else ifname_loop kw blocks mac
      | None \<Rightarrow> ifname_loop kw blocks mac)"

definition get_ifname_by_mac :: "string \<Rightarrow> host \<Rightarrow> string option \<Rightarrow> py_error + string option" where
  "get_ifname_by_mac kw h mac =
     (case ifconfig_out h of
        None \<Rightarrow> Inl ProcessExecutionError
      | Some out \<Rightarrow> ifname_loop kw (tl (re_split out)) mac)"

section \<open>The network model\<close>

text \<open>
  An interface and a subnet are Python dicts read with \<open>.get\<close>: a key that is absent
  reads as \<open>None\<close>. \<open>subnets\<close> is \<open>None\<close> when the key is absent, and then
  \<open>interface.get("subnets", [])\<close> is the empty list.
\<close>

record subnet =
  subnet_type :: "string option"
  address :: "string option"
  netmask :: "string option"
  gateway :: "string option"
  dns_nameservers :: "string list option"
  dns_search :: "string list option"

record interface =
  name :: "string option"
  mac_address :: "string option"
  subnets :: "subnet list option"

text \<open>The truth value of a string or \<open>None\<close> in an \<open>if\<close>.\<close>

definition truthy :: "string option \<Rightarrow> bool" where
  "truthy v = (case v of None \<Rightarrow> False | Some s \<Rightarrow> s \<noteq> [])"

text \<open>\<open>a + b\<close> on strings: \<open>TypeError\<close> when an operand is \<open>None\<close>.\<close>

definition py_add :: "string option \<Rightarrow> string option \<Rightarrow> py_error + string" where
  "py_add a b = (case (a, b) of (Some x, Some y) \<Rightarrow> Inr (x @ y) | _ \<Rightarrow> Inl TypeError)"

text \<open>
  \<open>re.match('^lo\<bsol>d+$', device_name)\<close>; \<open>$\<close> also matches before a newline that ends the
  string.
\<close>

definition is_lo :: "string \<Rightarrow> bool" where
  "is_lo s =
     (take 2 s = ''lo'' \<and>
      (let ds = takeWhile is_digit (drop 2 s); t = dropWhile is_digit (drop 2 s)
       in ds \<noteq> [] \<and> (t = [] \<or> t = [LF])))"

text \<open>\<open>interface.get("subnets", [])[0]\<close>.\<close>

definition first_subnet :: "interface \<Rightarrow> py_error + subnet" where
  "first_subnet iface =
     (case (case subnets iface of None \<Rightarrow> [] | Some l \<Rightarrow> l) of
        [] \<Rightarrow> Inl IndexError
      | s # _ \<Rightarrow> Inr s)"

text \<open>\<open>if key in subnet: acc.extend(subnet[key])\<close>.\<close>

definition extend_opt :: "string list \<Rightarrow> string list option \<Rightarrow> string list" where
  "extend_opt acc v = (case v of None \<Rightarrow> acc | Some l \<Rightarrow> acc @ l)"

text \<open>Sequencing of steps that may raise: the first error ends the sequence.\<close>

definition bind_err :: "py_error + 'a \<Rightarrow> ('a \<Rightarrow> py_error + 'b) \<Rightarrow> py_error + 'b" where
  "bind_err x f = (case x of Inl e \<Rightarrow> Inl e | Inr v \<Rightarrow> f v)"

section \<open>The FreeBSD renderer (\<open>net/freebsd.py\<close>)\<close>

text \<open>
  The state of the loop of \<open>_write_network\<close>: the machine and the two lists
  \<open>nameservers\<close> and \<open>searchdomains\<close>.
\<close>

type_synonym fb_state = "host \<times> string list \<times> string list"

text \<open>
  Lines 115 to 120: the name the rest of the body works with. With a MAC and a name, the
  name found for the MAC is compared with the declared one, a rename entry is written when
  they differ, and \<open>device_name\<close> stays the declared name. Otherwise \<open>device_name\<close>
  becomes what the lookup returns, \<open>None\<close> when nothing matches.
\<close>

definition fb_resolve_name :: "interface \<Rightarrow> host \<Rightarrow> py_error + (host \<times> string option)" where
  "fb_resolve_name iface h =
     (let device_name = name iface; device_mac = mac_address iface
      in if truthy device_mac \<and> truthy device_name
         then bind_err (get_ifname_by_mac ''ether'' h device_mac) (\<lambda>cur_name.
                if cur_name \<noteq> device_name
                then bind_err (updatercconf (''ifconfig_'' @ py_str cur_name @ ''_name'') device_name h)
                       (\<lambda>h'. Inr (h', device_name))
                else Inr (h, device_name))
         else bind_err (get_ifname_by_mac ''ether'' h device_mac) (\<lambda>found. Inr (h, found)))"

text \<open>Line 142: \<open>self.updatercconf('ifconfig_' + device_name, ifconfig)\<close>.\<close>

definition fb_write_ifconfig :: "string option \<Rightarrow> string \<Rightarrow> host \<Rightarrow> py_error + host" where
  "fb_write_ifconfig device_name ifconfig h =
     bind_err (py_add (Some ''ifconfig_'') device_name) (\<lambda>key.
       updatercconf key (Some ifconfig) h)"

text \<open>
  Lines 125 to 142: the entries written for the first subnet. A static subnet gives the
  address string, an upsert of \<open>defaultrouter\<close> with whatever \<open>subnet.get('gateway')\<close>
  returns, and the DNS lists; any other subnet gives \<open>DHCP\<close>. The last step is the upsert
  of the key of the interface.
\<close>

definition fb_configure :: "string option \<Rightarrow> subnet \<Rightarrow> fb_state \<Rightarrow> py_error + fb_state" where
  "fb_configure device_name subnet st =
     (case st of (h1, nameservers, searchdomains) \<Rightarrow>
        if subnet_type subnet = Some ''static''
        then
          bind_err (py_add (address subnet) (Some '' netmask '')) (\<lambda>a.
          bind_err (py_add (Some a) (netmask subnet)) (\<lambda>ifconfig.
          bind_err (updatercconf ''defaultrouter'' (gateway subnet) h1) (\<lambda>h2.
          bind_err (fb_write_ifconfig device_name ifconfig h2) (\<lambda>h3.
            Inr (h3, extend_opt nameservers (dns_nameservers subnet),
                 extend_opt searchdomains (dns_search subnet))))))
        else
          bind_err (fb_write_ifconfig device_name ''DHCP'' h1) (\<lambda>h3.
            Inr (h3, nameservers, searchdomains)))"

text \<open>The body of the loop for one interface; a loopback name ends it at once.\<close>

definition fb_interface :: "interface \<Rightarrow> fb_state \<Rightarrow> py_error + fb_state" where
  "fb_interface iface st =
     (case st of (h, nameservers, searchdomains) \<Rightarrow>
        if truthy (name iface) \<and> is_lo (the (name iface)) then Inr st
        else
          bind_err (fb_resolve_name iface h) (\<lambda>(h1, device_name).
          bind_err (first_subnet iface) (\<lambda>subnet.
            fb_configure device_name subnet (h1, nameservers, searchdomains))))"

text \<open>The loop over \<open>settings.iter_interfaces()\<close>: an exception ends it.\<close>

fun fb_interfaces :: "interface list \<Rightarrow> fb_state \<Rightarrow> py_error + fb_state" where
  "fb_interfaces [] st = Inr st"
| "fb_interfaces (iface # ifaces) st =
     bind_err (fb_interface iface st) (fb_interfaces ifaces)"

section \<open>The NetBSD renderer (\<open>net/netbsd.py\<close>)\<close>

text \<open>
  \<open>netbsd_util.set_rc_config_value(key, value)\<close>: the function is not part of these
  sources, so the call is recorded with its arguments.
\<close>

definition set_rc_config_value :: "string \<Rightarrow> string \<Rightarrow> host \<Rightarrow> host" where
  "set_rc_config_value key val h = h\<lparr>rc_calls := rc_calls h @ [(key, val)]\<rparr>"

text \<open>
  The state of the loop: the machine, \<open>self.dhcp_interfaces\<close> (a name may be \<open>None\<close>),
  and the two lists \<open>nameservers\<close> and \<open>searchdomains\<close>.
\<close>

type_synonym nb_state = "host \<times> string option list \<times> string list \<times> string list"

definition nb_interface :: "interface \<Rightarrow> nb_state \<Rightarrow> py_error + nb_state" where
  "nb_interface iface st =
     (case st of (h, dhcp_interfaces, nameservers, searchdomains) \<Rightarrow>
        bind_err (if truthy (mac_address iface)
                  then get_ifname_by_mac ''address:'' h (mac_address iface)
                  else Inr (name iface)) (\<lambda>device_name.
        bind_err (first_subnet iface) (\<lambda>subnet.
          if subnet_type subnet = Some ''static''
          then
            bind_err (py_add (address subnet) (Some '' netmask '')) (\<lambda>a.
            bind_err (py_add (Some a) (netmask subnet)) (\<lambda>ifconfig.
              let h1 = (if truthy (gateway subnet)
                        then set_rc_config_value ''defaultroute'' (the (gateway subnet)) h
                        else h)
              in bind_err (py_add (Some ''ifconfig_'') device_name) (\<lambda>key.
                   Inr (set_rc_config_value key ifconfig h1, dhcp_interfaces,
                        extend_opt nameservers (dns_nameservers subnet),
                        extend_opt searchdomains (dns_search subnet)))))
          else Inr (h, dhcp_interfaces @ [device_name], nameservers, searchdomains))))"

fun nb_interfaces :: "interface list \<Rightarrow> nb_state \<Rightarrow> py_error + nb_state" where
  "nb_interfaces [] st = Inr st"
| "nb_interfaces (iface # ifaces) st =
     bind_err (nb_interface iface st) (nb_interfaces ifaces)"

text \<open>\<open>' '.join(names)\<close>: \<open>TypeError\<close> when an item is \<open>None\<close>.\<close>

fun py_join :: "string option list \<Rightarrow> py_error + string" where
  "py_join [] = Inr []"
| "py_join [x] = (case x of None \<Rightarrow> Inl TypeError | Some s \<Rightarrow> Inr s)"
| "py_join (x # y # ys) =
     (case x of
        None \<Rightarrow> Inl TypeError
      | Some s \<Rightarrow> bind_err (py_join (y # ys)) (\<lambda>r. Inr (s @ CHR '' '' # r)))"

text \<open>
  Lines 80 to 82, after the loop: with a DHCP interface, \<open>dhcpcd\<close> is switched on and
  \<open>dhcpcd_flags\<close> is given the names.
\<close>

definition nb_dhcpcd :: "nb_state \<Rightarrow> py_error + nb_state" where
  "nb_dhcpcd st =
     (case st of (h, dhcp_interfaces, nameservers, searchdomains) \<Rightarrow>
        if dhcp_interfaces \<noteq> []
        then bind_err (py_join dhcp_interfaces) (\<lambda>flags.
               Inr (set_rc_config_value ''dhcpcd_flags'' flags
                      (set_rc_config_value ''dhcpcd'' ''YES'' h),
                    dhcp_interfaces, nameservers, searchdomains))
        else Inr st)"

definition nb_render :: "interface list \<Rightarrow> nb_state \<Rightarrow> py_error + nb_state" where
  "nb_render ifaces st = bind_err (nb_interfaces ifaces st) nb_dhcpcd"

section \<open>Merging the DNS settings (both renderers)\<close>

text \<open>
  The loop \<open>for server in nameservers\<close> with its \<open>try\<close> and \<open>except ValueError\<close>: a
  \<open>ValueError\<close> is logged with \<open>util.logexc\<close> and the loop goes on; any other exception
  leaves the loop. The state is the configuration and the messages logged so far.
\<close>

fun add_nameservers ::
  "string list \<Rightarrow> resolvconf \<times> string list \<Rightarrow> py_error + (resolvconf \<times> string list)" where
  "add_nameservers [] st = Inr st"
| "add_nameservers (server # servers) (rc, logged) =
     (case add_nameserver server rc of
        Inr rc' \<Rightarrow> add_nameservers servers (rc', logged)
      | Inl e \<Rightarrow>
          if e = ValueError
          then add_nameservers servers (rc, logged @ [''Failed to add nameserver '' @ server])
          else Inl e)"

fun add_search_domains ::
  "string list \<Rightarrow> resolvconf \<times> string list \<Rightarrow> py_error + (resolvconf \<times> string list)" where
  "add_search_domains [] st = Inr st"
| "add_search_domains (domain # domains) (rc, logged) =
     (case add_search_domain domain rc of
        Inr rc' \<Rightarrow> add_search_domains domains (rc', logged)
      | Inl e \<Rightarrow>
          if e = ValueError
          then add_search_domains domains (rc, logged @ [''Failed to add search domain '' @ domain])
          else Inl e)"

text \<open>
  From the \<open>try\<close> that reads \<open>/etc/resolv.conf\<close> to the \<open>util.write_file\<close> that writes it:
  an unreadable file gives the empty configuration. The result is the machine and the
  messages logged.
\<close>

definition merge_dns ::
  "string list \<Rightarrow> string list \<Rightarrow> host \<Rightarrow> py_error + (host \<times> string list)" where
  "merge_dns nameservers searchdomains h =
     (let resolvconf = (case resolv_conf h of None \<Rightarrow> [] | Some rc \<Rightarrow> rc)
      in bind_err (add_nameservers nameservers (resolvconf, [])) (\<lambda>st1.
         bind_err (add_search_domains searchdomains st1) (\<lambda>(rc2, logged).
           Inr (h\<lparr>resolv_conf := Some rc2\<rparr>, logged))))"

text \<open>\<open>util.subp(cmd)\<close> for the service commands.\<close>

definition subp :: "string list \<Rightarrow> host \<Rightarrow> host" where
  "subp cmd h = h\<lparr>cmds := cmds h @ [cmd]\<rparr>"

text \<open>\<open>_write_network\<close> of the FreeBSD renderer.\<close>

definition fb_write_network :: "interface list \<Rightarrow> host \<Rightarrow> py_error + (host \<times> string list)" where
  "fb_write_network ifaces h =
     bind_err (fb_interfaces ifaces (h, [], [])) (\<lambda>(h1, nameservers, searchdomains).
       merge_dns nameservers searchdomains
         (subp [''/etc/rc.d/routing'', ''restart''] (subp [''/etc/rc.d/netif'', ''restart''] h1)))"

text \<open>
  \<open>_write_network\<close> of the NetBSD renderer, with \<open>start_services\<close>; \<open>dhcp_interfaces\<close> is
  the list the renderer object holds when the call begins, and \<open>postcmds\<close> its
  \<open>_postcmds\<close>.
\<close>

definition start_services :: "bool \<Rightarrow> string option list \<Rightarrow> host \<Rightarrow> host" where
  "start_services postcmds dhcp_interfaces h =
     (if \<not> postcmds then h
      else (let h1 = subp [''service'', ''network'', ''restart''] h
            in if dhcp_interfaces \<noteq> [] then subp [''service'', ''dhcpcd'', ''restart''] h1 else h1))"

definition nb_write_network ::
  "bool \<Rightarrow> interface list \<Rightarrow> string option list \<Rightarrow> host
   \<Rightarrow> py_error + (host \<times> string option list \<times> string list)" where
  "nb_write_network postcmds ifaces dhcp_interfaces h =
     bind_err (nb_render ifaces (h, dhcp_interfaces, [], [])) (\<lambda>(h1, dhcp, nameservers, searchdomains).
     bind_err (merge_dns nameservers searchdomains h1) (\<lambda>(h2, logged).
       Inr (start_services postcmds dhcp h2, dhcp, logged)))"

section \<open>Keys and values that survive a write and a load\<close>

text \<open>
  \<open>updatercconf\<close> writes every entry as \<open>key="value"\<close> and the next call loads the file
  again. A key that is a non-empty word and a value that is non-empty and has no line
  break come back as they were written.
\<close>

definition wf_key :: "string \<Rightarrow> bool" where
  "wf_key k = (k \<noteq> [] \<and> (\<forall>c\<in>set k. is_word c))"

definition wf_value :: "string \<Rightarrow> bool" where
  "wf_value v = (v \<noteq> [] \<and> (\<forall>c\<in>set v. \<not> is_linebreak c))"

text \<open>The store a machine holds, as \<open>loadrcconf\<close> reads it.\<close>

definition store_of :: "host \<Rightarrow> py_error + string pydict" where
  "store_of h = loadrcconf (rc_conf h)"

text \<open>The line \<open>updatercconf\<close> writes for an entry, without its newline.\<close>

definition rc_line :: "string \<times> string \<Rightarrow> string" where
  "rc_line p = fst p @ CHR ''='' # DQ # snd p @ [DQ]"

section \<open>Observing a rendering\<close>

text \<open>
  What \<open>readrcconf(key)\<close> returns after the loop of the FreeBSD renderer has run on a
  machine, and the number of writes of rc.conf during a second run of the loop on
  the machine the first run leaves.
\<close>

definition fb_readrcconf :: "interface list \<Rightarrow> host \<Rightarrow> string \<Rightarrow> py_error + string option" where
  "fb_readrcconf ifaces h key =
     bind_err (fb_interfaces ifaces (h, [], [])) (\<lambda>(h', nameservers, searchdomains).
       readrcconf (rc_conf h') key)"

definition fb_second_pass_writes :: "interface list \<Rightarrow> host \<Rightarrow> py_error + nat" where
  "fb_second_pass_writes ifaces h =
     bind_err (fb_interfaces ifaces (h, [], [])) (\<lambda>(h1, nameservers, searchdomains).
     bind_err (fb_interfaces ifaces (h1, [], [])) (\<lambda>(h2, nameservers2, searchdomains2).
       Inr (rc_writes h2 - rc_writes h1)))"

section \<open>Example machines and network models\<close>

text \<open>
  A listing of \<open>ifconfig -a\<close> with the adapter \<open>vtnet0\<close> and the loopback, a machine with
  an empty rc.conf, and one whose rc.conf sets \<open>defaultrouter\<close>.
\<close>

definition ex_ifconfig :: string where
  "ex_ifconfig = ''vtnet0: flags=8843 mtu 1500'' @ [LF, CHR 0x09] @ ''ether aa:bb:cc:dd:ee:ff''
     @ [LF] @ ''lo0: flags=8049 mtu 16384'' @ [LF]"

definition ex_host :: host where
  "ex_host = \<lparr>rc_conf = Some [], rc_writes = 0, ifconfig_out = Some ex_ifconfig,
     rc_calls = [], resolv_conf = None, cmds = []\<rparr>"

definition ex_host_routed :: host where
  "ex_host_routed = ex_host\<lparr>rc_conf := Some (''defaultrouter='' @ DQ # ''10.0.0.1'' @ [DQ, LF])\<rparr>"

definition ex_subnet :: "string \<Rightarrow> subnet" where
  "ex_subnet t = \<lparr>subnet_type = Some t, address = None, netmask = None, gateway = None,
     dns_nameservers = None, dns_search = None\<rparr>"

definition ex_static :: "string \<Rightarrow> string option \<Rightarrow> subnet" where
  "ex_static a g = \<lparr>subnet_type = Some ''static'', address = Some a,
     netmask = Some ''255.255.255.0'', gateway = g, dns_nameservers = None, dns_search = None\<rparr>"

text \<open>
  \<open>eth0\<close> carries the MAC address of \<open>vtnet0\<close>; \<open>em1\<close> carries a MAC address that the
  listing does not have; \<open>ex_mac_only\<close> has that address and no name.
\<close>

definition ex_eth0 :: "subnet list option \<Rightarrow> interface" where
  "ex_eth0 sns = \<lparr>name = Some ''eth0'', mac_address = Some ''aa:bb:cc:dd:ee:ff'', subnets = sns\<rparr>"

definition ex_em1 :: "subnet list option \<Rightarrow> interface" where
  "ex_em1 sns = \<lparr>name = Some ''em1'', mac_address = Some ''00:11:22:33:44:55'', subnets = sns\<rparr>"

definition ex_mac_only :: "subnet list option \<Rightarrow> interface" where
  "ex_mac_only sns = \<lparr>name = None, mac_address = Some ''00:11:22:33:44:55'', subnets = sns\<rparr>"

definition ex_named :: "string \<Rightarrow> subnet list option \<Rightarrow> interface" where
  "ex_named n sns = \<lparr>name = Some n, mac_address = None, subnets = sns\<rparr>"

section \<open>The upserts of one interface\<close>

text \<open>
  The calls of \<open>updatercconf\<close> that the body of the FreeBSD loop makes for an interface,
  as a list of keys and values in the order of the calls. They are stated apart from
  \<open>fb_interface\<close>, which is compared with them below. \<open>fb_device_name\<close> is the
  value of \<open>device_name\<close> at line 122: the declared name when the interface has a name
  and a MAC address, the result of the lookup otherwise.
\<close>

definition fb_device_name :: "host \<Rightarrow> interface \<Rightarrow> string option" where
  "fb_device_name h iface =
     (if truthy (mac_address iface) \<and> truthy (name iface) then name iface
      else (case get_ifname_by_mac ''ether'' h (mac_address iface) of
              Inr found \<Rightarrow> found
            | Inl e \<Rightarrow> None))"

definition fb_rename_upserts :: "host \<Rightarrow> interface \<Rightarrow> (string \<times> string option) list" where
  "fb_rename_upserts h iface =
     (if truthy (mac_address iface) \<and> truthy (name iface)
      then (case get_ifname_by_mac ''ether'' h (mac_address iface) of
              Inr cur_name \<Rightarrow>
                if cur_name \<noteq> name iface
                then [(''ifconfig_'' @ py_str cur_name @ ''_name'', name iface)]
                else []
            | Inl e \<Rightarrow> [])
      else [])"

definition fb_subnet_upserts :: "string \<Rightarrow> subnet \<Rightarrow> (string \<times> string option) list" where
  "fb_subnet_upserts n sn =
     (if subnet_type sn = Some ''static''
      then [(''defaultrouter'', gateway sn),
            (''ifconfig_'' @ n, Some (the (address sn) @ '' netmask '' @ the (netmask sn)))]
      else [(''ifconfig_'' @ n, Some ''DHCP'')])"

definition fb_upserts :: "host \<Rightarrow> interface \<Rightarrow> (string \<times> string option) list" where
  "fb_upserts h iface =
     (if truthy (name iface) \<and> is_lo (the (name iface)) then []
      else fb_rename_upserts h iface @
           (case (fb_device_name h iface, first_subnet iface) of
              (Some n, Inr sn) \<Rightarrow> fb_subnet_upserts n sn
            | _ \<Rightarrow> []))"

text \<open>The calls of \<open>updatercconf\<close> of a list, one after the other.\<close>

fun run_upserts :: "(string \<times> string option) list \<Rightarrow> host \<Rightarrow> py_error + host" where
  "run_upserts [] h = Inr h"
| "run_upserts (u # us) h = bind_err (updatercconf (fst u) (snd u) h) (run_upserts us)"

text \<open>The store after the upserts of a list.\<close>

definition upsert_all :: "(string \<times> string option) list \<Rightarrow> string pydict \<Rightarrow> string pydict" where
  "upsert_all us c = fold (\<lambda>u. dict_set (fst u) (py_str (snd u))) us c"

text \<open>
  Every key and value of the list survives a write and a load; every value is a string;
  no key is given two values.
\<close>

definition wf_upserts :: "(string \<times> string option) list \<Rightarrow> bool" where
  "wf_upserts us = (\<forall>u\<in>set us. wf_key (fst u) \<and> wf_value (py_str (snd u)))"

definition all_strings :: "(string \<times> string option) list \<Rightarrow> bool" where
  "all_strings us = (\<forall>u\<in>set us. snd u \<noteq> None)"

definition single_valued_upserts :: "(string \<times> string option) list \<Rightarrow> bool" where
  "single_valued_upserts us = (\<forall>u\<in>set us. \<forall>w\<in>set us. fst u = fst w \<longrightarrow> snd u = snd w)"

section \<open>Properties of the rc.conf loader\<close>

subsection \<open>Loading a line with an empty value\<close>

text \<open>
  C3. The claim is that a line whose value is empty after stripping, such as \<open>key=\<close>,
  raises no index error and is skipped. In the code \<open>val[0]\<close> is read before the
  \<open>len(val) == 0\<close> test, so the line \<open>key=\<close> makes \<open>loadrcconf\<close> raise
  \<open>IndexError\<close>.
\<close>

theorem loadrcconf_empty_value_raises:
  "loadrcconf (Some ''key='') = Inl IndexError"
  by (simp add: loadrcconf_def splitlines_def RE_MATCH_def kill_quotes_def rstrip_def
      is_word_def is_space_def is_linebreak_def Let_def)

subsection \<open>Quote stripping\<close>

lemma is_word_props:
  "is_word c \<Longrightarrow> \<not> is_space c \<and> \<not> is_linebreak c \<and> c \<noteq> CHR ''='' \<and> \<not> is_quote c"
  by (auto simp: is_word_def is_space_def is_linebreak_def is_quote_def DQ_def SQ_def Let_def)

lemma is_quote_props:
  "is_quote c \<Longrightarrow> \<not> is_space c \<and> \<not> is_linebreak c \<and> c \<noteq> LF"
  by (auto simp: is_space_def is_linebreak_def is_quote_def DQ_def SQ_def LF_def Let_def)

lemma eq_char_props:
  "\<not> is_word (CHR ''='') \<and> \<not> is_space (CHR ''='') \<and> \<not> is_linebreak (CHR ''='')"
  by (simp add: is_word_def is_space_def is_linebreak_def Let_def)

lemma LF_linebreak: "is_linebreak LF"
  by (simp add: is_linebreak_def LF_def Let_def)

lemma splitlines_acc_one:
  "\<forall>c\<in>set s. \<not> is_linebreak c \<Longrightarrow> acc \<noteq> [] \<or> s \<noteq> [] \<Longrightarrow>
   splitlines_acc acc s = [rev acc @ s]"
  by (induction s arbitrary: acc) auto

lemma splitlines_one:
  "\<forall>c\<in>set s. \<not> is_linebreak c \<Longrightarrow> s \<noteq> [] \<Longrightarrow> splitlines s = [s]"
  by (simp add: splitlines_def splitlines_acc_one)

lemma RE_MATCH_assign:
  assumes "k \<noteq> []" "\<forall>c\<in>set k. is_word c" "\<not> is_space q" "q \<noteq> LF" "LF \<notin> set r"
  shows "RE_MATCH (k @ CHR ''='' # q # r) = Some (k, q # r)"
proof -
  have tw: "takeWhile is_word (k @ CHR ''='' # q # r) = k"
    using assms(2) eq_char_props by simp
  have dw: "dropWhile is_word (k @ CHR ''='' # q # r) = CHR ''='' # q # r"
    using assms(2) eq_char_props by simp
  have t2: "takeWhile (\<lambda>x. x \<noteq> LF) (q # r) = q # r"
    using assms(4,5) by (auto intro: takeWhile_eq_all_conv[THEN iffD2])
  show ?thesis
    using assms(1,3) eq_char_props t2 by (simp add: RE_MATCH_def tw dw Let_def)
qed

lemma rstrip_nospace_last: "\<not> is_space q \<Longrightarrow> rstrip (s @ [q]) = s @ [q]"
  by (simp add: rstrip_def)

lemma rstrip_word: "\<forall>c\<in>set k. is_word c \<Longrightarrow> rstrip k = k"
proof (cases k rule: rev_cases)
  case Nil
  then show ?thesis by (simp add: rstrip_def)
next
  case (snoc ys y)
  assume "\<forall>c\<in>set k. is_word c"
  with snoc have "\<not> is_space y" using is_word_props by auto
  with snoc show ?thesis by (simp add: rstrip_nospace_last)
qed

lemma kill_quotes_quoted:
  "is_quote q1 \<Longrightarrow> is_quote q2 \<Longrightarrow> kill_quotes (q1 # v @ [q2]) = Inr v"
  by (simp add: kill_quotes_def Let_def)

text \<open>
  A file that is the one line \<open>k=<q1>v<q2>\<close>, with \<open>k\<close> a word and \<open>q1\<close>, \<open>q2\<close> quote
  characters (single or double), loads as the one entry \<open>k \<mapsto> v\<close>: exactly the first and
  the last character are removed, whatever \<open>v\<close> itself begins or ends with. When \<open>v\<close> is
  empty the line gives no entry.
\<close>

lemma loadrcconf_quoted_line:
  assumes "k \<noteq> []" and "\<forall>c\<in>set k. is_word c" and "is_quote q1" and "is_quote q2"
    and "\<forall>c\<in>set v. \<not> is_linebreak c"
  shows "loadrcconf (Some (k @ CHR ''='' # q1 # v @ [q2])) =
         Inr (if v = [] then [] else [(k, v)])"
proof -
  let ?line = "k @ CHR ''='' # q1 # v @ [q2]"
  have nb: "\<forall>c\<in>set ?line. \<not> is_linebreak c"
    using assms is_word_props is_quote_props eq_char_props by auto
  have sl: "splitlines ?line = [?line]"
    using nb by (intro splitlines_one) auto
  have lf: "LF \<notin> set (v @ [q2])"
    using assms(4,5) is_quote_props LF_linebreak by auto
  have m: "RE_MATCH ?line = Some (k, q1 # v @ [q2])"
    using RE_MATCH_assign[OF assms(1,2) _ _ lf, of q1] assms(3) is_quote_props by simp
  have rs: "rstrip (q1 # v @ [q2]) = q1 # v @ [q2]"
    using rstrip_nospace_last[of q2 "q1 # v"] assms(4) is_quote_props by simp
  show ?thesis
    using assms(3,4)
    by (simp add: loadrcconf_def sl m rs kill_quotes_quoted rstrip_word[OF assms(2)])
qed

text \<open>The lines \<open>hostname="myhost"\<close> and \<open>key=""\<close>.\<close>

lemma loadrcconf_quoted_examples:
  "loadrcconf (Some (''hostname='' @ DQ # ''myhost'' @ [DQ])) = Inr [(''hostname'', ''myhost'')]
   \<and> loadrcconf (Some (''key='' @ [DQ, DQ])) = Inr []"
  using loadrcconf_quoted_line[of "''hostname''" DQ DQ "''myhost''"]
    loadrcconf_quoted_line[of "''key''" DQ DQ "[]"]
  by (simp add: is_word_def is_quote_def is_linebreak_def Let_def)

text \<open>
  C7. The claim is that exactly one leading and one trailing quote are removed and that a
  line whose value becomes empty after quote stripping gives no entry. The two lines above
  load as the claim says, but the value that is one quote character alone, as in the line
  \<open>key="\<close>, is empty after \<open>val[1:]\<close>, and \<open>val[-1]\<close> is read before the
  \<open>len(val) == 0\<close> test: \<open>loadrcconf\<close> raises \<open>IndexError\<close> and no store is returned.
\<close>

theorem loadrcconf_lone_quote_raises:
  "loadrcconf (Some (''key='' @ [DQ])) = Inl IndexError"
  by (simp add: loadrcconf_def splitlines_def RE_MATCH_def kill_quotes_def rstrip_def
      is_word_def is_space_def is_linebreak_def is_quote_def DQ_def LF_def Let_def)

subsection \<open>A write followed by a load\<close>


lemma change_items_eq:
  "change_items items key val (conf, b) =
     (if key \<in> set items \<and> dict_get conf key \<noteq> Some val then (dict_set key val conf, True)
      else (conf, b))"
proof (induction items arbitrary: conf b)
  case Nil
  then show ?case by simp
next
  case (Cons item items)
  have g: "dict_get (dict_set key val conf) key = Some val" for conf :: "string option pydict"
    by (induction conf) (auto simp: dict_get_def)
  show ?case using Cons[of conf b] Cons[of "dict_set key val conf" True] g
    by auto
qed

lemma dict_set_map:
  "dict_set k (f v) (map (\<lambda>(a, b). (a, f b)) d) = map (\<lambda>(a, b). (a, f b)) (dict_set k v d)"
  by (induction d) auto

lemma dict_set_keys: "fst ` set (dict_set k v d) = insert k (fst ` set d)"
  by (induction d) auto

lemma dict_set_distinct: "distinct (map fst d) \<Longrightarrow> distinct (map fst (dict_set k v d))"
  by (induction d) (auto simp: dict_set_keys)

lemma dict_set_new: "k \<notin> set (map fst d) \<Longrightarrow> dict_set k v d = d @ [(k, v)]"
  by (induction d) auto

lemma dict_set_same: "dict_get d k = Some v \<Longrightarrow> dict_set k v d = d"
  by (induction d) (auto simp: dict_get_def)

lemma dict_get_set: "dict_get (dict_set k v d) k' = (if k' = k then Some v else dict_get d k')"
  by (induction d) (auto simp: dict_get_def)

lemma dict_set_values:
  "(a, b) \<in> set (dict_set k v d) \<Longrightarrow> (a, b) = (k, v) \<or> (a, b) \<in> set d"
  by (induction d) (auto split: if_splits)

lemma set_rstrip: "set (rstrip s) \<subseteq> set s"
  using set_dropWhileD[of _ is_space "rev s"] by (auto simp: rstrip_def)

lemma set_kill_quotes: "kill_quotes s = Inr v \<Longrightarrow> set v \<subseteq> set s"
  by (auto simp: kill_quotes_def Let_def split: list.splits if_splits dest: in_set_butlastD)

lemma RE_MATCH_parts:
  assumes "RE_MATCH line = Some (g1, g2)"
  shows "wf_key (rstrip g1) \<and> set g2 \<subseteq> set line"
proof -
  from assms have g1: "g1 = takeWhile is_word line" "g1 \<noteq> []"
    by (auto simp: RE_MATCH_def Let_def split: if_splits list.splits)
  have w: "\<forall>c\<in>set g1. is_word c" unfolding g1(1) by (auto dest: set_takeWhileD)
  from assms obtain r where "set g2 \<subseteq> set r" "set r \<subseteq> set line"
  proof -
    from assms obtain c r where d: "dropWhile is_space (dropWhile is_word line) = c # r"
      and g2: "g2 = takeWhile (\<lambda>x. x \<noteq> LF) (dropWhile is_space r)"
      by (auto simp: RE_MATCH_def Let_def split: if_splits list.splits)
    have "set (c # r) \<subseteq> set line"
      using set_dropWhileD[of _ is_space "dropWhile is_word line"] set_dropWhileD[of _ is_word line]
      unfolding d[symmetric] by blast
    moreover have "set g2 \<subseteq> set r"
      unfolding g2 using set_takeWhileD[of _ "\<lambda>x. x \<noteq> LF" "dropWhile is_space r"]
        set_dropWhileD[of _ is_space r] by blast
    ultimately show ?thesis using that by auto
  qed
  then have "set g2 \<subseteq> set line" by blast
  moreover have "wf_key (rstrip g1)" using rstrip_word[OF w] g1(2) w by (simp add: wf_key_def)
  ultimately show ?thesis by simp
qed

lemma loadrcconf_lines_wf:
  "loadrcconf_lines acc lines = Inr c \<Longrightarrow>
   \<forall>l\<in>set lines. \<forall>ch\<in>set l. \<not> is_linebreak ch \<Longrightarrow>
   (\<forall>(k, v)\<in>set acc. wf_key k \<and> wf_value v) \<Longrightarrow> distinct (map fst acc) \<Longrightarrow>
   (\<forall>(k, v)\<in>set c. wf_key k \<and> wf_value v) \<and> distinct (map fst c)"
proof (induction lines arbitrary: acc)
  case Nil
  then show ?case by simp
next
  case (Cons line lines)
  show ?case
  proof (cases "RE_MATCH line")
    case None
    with Cons show ?thesis by simp
  next
    case (Some g)
    obtain g1 g2 where g: "g = (g1, g2)" by (cases g)
    from Cons.prems(1) Some g obtain val where kq: "kill_quotes (rstrip g2) = Inr val"
      by (auto split: sum.splits)
    have sub: "set val \<subseteq> set line"
      using set_kill_quotes[OF kq] set_rstrip[of g2] RE_MATCH_parts[OF Some[unfolded g]] by blast
    show ?thesis
    proof (cases "val = []")
      case True
      with Cons Some g kq show ?thesis by simp
    next
      case False
      have wv: "wf_value val" using False sub Cons.prems(2) by (auto simp: wf_value_def)
      have wk: "wf_key (rstrip g1)" using RE_MATCH_parts[OF Some[unfolded g]] by simp
      have rec: "loadrcconf_lines (dict_set (rstrip g1) val acc) lines = Inr c"
        using Cons.prems(1) Some g kq False by simp
      have inv: "\<forall>(k, v)\<in>set (dict_set (rstrip g1) val acc). wf_key k \<and> wf_value v"
        using Cons.prems(3) wv wk by (auto dest: dict_set_values)
      show ?thesis
        using Cons.IH[OF rec _ inv dict_set_distinct[OF Cons.prems(4)]] Cons.prems(2) by simp
    qed
  qed
qed

lemma splitlines_acc_clean:
  "\<forall>c\<in>set acc. \<not> is_linebreak c \<Longrightarrow> \<forall>l\<in>set (splitlines_acc acc s). \<forall>c\<in>set l. \<not> is_linebreak c"
proof (induction s arbitrary: acc rule: length_induct)
  case (1 s)
  note acc = "1.prems"
  have IH: "\<forall>l\<in>set (splitlines_acc a ys). \<forall>c\<in>set l. \<not> is_linebreak c"
    if "length ys < length s" "\<forall>c\<in>set a. \<not> is_linebreak c" for ys a
    using "1.IH" that by blast
  show ?case
  proof (cases s)
    case Nil
    with acc show ?thesis by simp
  next
    case (Cons c cs)
    show ?thesis
    proof (cases "is_linebreak c")
      case False
      have eq: "splitlines_acc acc s = splitlines_acc (c # acc) cs"
        unfolding Cons using False by simp
      have "\<forall>x\<in>set (c # acc). \<not> is_linebreak x" using False acc by simp
      from IH[of cs "c # acc", OF _ this] show ?thesis unfolding eq using Cons by simp
    next
      case True
      define rest where
        "rest = (case cs of d # ds \<Rightarrow> if c = CR \<and> d = LF then ds else cs | [] \<Rightarrow> cs)"
      have eq: "splitlines_acc acc s = rev acc # splitlines_acc [] rest"
        unfolding Cons rest_def using True
        by (simp del: splitlines_acc.simps add: splitlines_acc.simps(2)[of acc c cs] split: list.split)
      have len: "length rest < length s"
        unfolding Cons rest_def by (simp split: list.split)
      have "\<forall>l\<in>set (splitlines_acc [] rest). \<forall>c\<in>set l. \<not> is_linebreak c"
        using IH[of rest "[]", OF len] by simp
      then show ?thesis unfolding eq using acc by simp
    qed
  qed
qed

lemma loadrcconf_wf:
  "loadrcconf f = Inr c \<Longrightarrow> (\<forall>(k, v)\<in>set c. wf_key k \<and> wf_value v) \<and> distinct (map fst c)"
  using loadrcconf_lines_wf[of "[]" _ c] splitlines_acc_clean[of "[]"]
  by (auto simp: loadrcconf_def splitlines_def split: option.splits)


lemma splitlines_acc_line:
  "\<forall>c\<in>set l. \<not> is_linebreak c \<Longrightarrow>
   splitlines_acc acc (l @ LF # rest) = (rev acc @ l) # splitlines_acc [] rest"
proof (induction l arbitrary: acc)
  case Nil
  have "LF \<noteq> CR" by (simp add: LF_def CR_def)
  then show ?case using LF_linebreak by (simp split: list.split)
next
  case (Cons c l)
  then show ?case by simp
qed


lemma rc_line_clean: "wf_key k \<Longrightarrow> wf_value v \<Longrightarrow> \<forall>c\<in>set (rc_line (k, v)). \<not> is_linebreak c"
  using is_word_props eq_char_props is_quote_props[of DQ]
  by (auto simp: rc_line_def wf_key_def wf_value_def is_quote_def)

lemma splitlines_lines:
  "\<forall>l\<in>set ls. \<forall>c\<in>set l. \<not> is_linebreak c \<Longrightarrow>
   splitlines_acc [] (concat (map (\<lambda>l. l @ [LF]) ls)) = ls"
proof (induction ls)
  case Nil
  then show ?case by simp
next
  case (Cons l ls)
  then show ?case using splitlines_acc_line[of l "[]" "concat (map (\<lambda>l. l @ [LF]) ls)"] by simp
qed

lemma load_rc_line:
  assumes "wf_key k" "wf_value v"
  shows "loadrcconf_lines acc (rc_line (k, v) # lines) = loadrcconf_lines (dict_set k v acc) lines"
proof -
  have dq: "is_quote DQ" by (simp add: is_quote_def)
  have k: "k \<noteq> []" "\<forall>c\<in>set k. is_word c" using assms(1) by (auto simp: wf_key_def)
  have lf: "LF \<notin> set (v @ [DQ])"
    using assms(2) is_quote_props[OF dq] LF_linebreak by (auto simp: wf_value_def)
  have m: "RE_MATCH (rc_line (k, v)) = Some (k, DQ # v @ [DQ])"
    using RE_MATCH_assign[OF k _ _ lf, of DQ] is_quote_props[OF dq] by (simp add: rc_line_def)
  have rs: "rstrip (DQ # v @ [DQ]) = DQ # v @ [DQ]"
    using rstrip_nospace_last[of DQ "DQ # v"] is_quote_props[OF dq] by simp
  have "v \<noteq> []" using assms(2) by (simp add: wf_value_def)
  then show ?thesis
    by (simp add: m rs kill_quotes_quoted[OF dq dq] rstrip_word[OF k(2)])
qed

lemma load_rc_lines:
  "\<forall>(k, v)\<in>set conf. wf_key k \<and> wf_value v \<Longrightarrow> distinct (map fst (acc @ conf)) \<Longrightarrow>
   loadrcconf_lines acc (map rc_line conf) = Inr (acc @ conf)"
proof (induction conf arbitrary: acc)
  case Nil
  then show ?case by simp
next
  case (Cons p conf)
  obtain k v where p: "p = (k, v)" by (cases p)
  have new: "dict_set k v acc = acc @ [(k, v)]"
    using Cons.prems(2) p by (intro dict_set_new) auto
  have "loadrcconf_lines acc (map rc_line (p # conf)) = loadrcconf_lines (acc @ [(k, v)]) (map rc_line conf)"
    using load_rc_line[of k v acc] Cons.prems(1) p new by simp
  also have "\<dots> = Inr ((acc @ [(k, v)]) @ conf)"
    using Cons.prems p by (intro Cons.IH) auto
  finally show ?case using p by simp
qed

lemma rcconf_text_lines:
  "rcconf_text conf = concat (map (\<lambda>l. l @ [LF]) (map (\<lambda>(k, v). rc_line (k, py_str v)) conf))"
  by (induction conf) (auto simp: rcconf_text_def rc_line_def)

lemma load_rcconf_text:
  assumes "\<forall>(k, v)\<in>set conf. wf_key k \<and> wf_value (py_str v)" "distinct (map fst conf)"
  shows "loadrcconf (Some (rcconf_text conf)) = Inr (map (\<lambda>(k, v). (k, py_str v)) conf)"
proof -
  let ?c = "map (\<lambda>(k, v). (k, py_str v)) conf"
  have lines: "map (\<lambda>(k, v). rc_line (k, py_str v)) conf = map rc_line ?c"
    by (induction conf) auto
  have wf: "\<forall>(k, v)\<in>set ?c. wf_key k \<and> wf_value v" using assms(1) by auto
  have d: "distinct (map fst ([] @ ?c))"
    using assms(2) by (simp add: comp_def case_prod_unfold)
  have clean: "\<forall>l\<in>set (map rc_line ?c). \<forall>c\<in>set l. \<not> is_linebreak c"
    using wf rc_line_clean by fastforce
  show ?thesis
    using splitlines_lines[OF clean] load_rc_lines[OF wf d]
    by (simp add: loadrcconf_def splitlines_def rcconf_text_lines lines)
qed


lemma updatercconf_effect:
  assumes c: "store_of h = Inr c" and k: "wf_key key" and v: "wf_value (py_str val)"
  shows "\<exists>h'. updatercconf key val h = Inr h'
           \<and> store_of h' = Inr (dict_set key (py_str val) c)
           \<and> rc_writes h' = (if map_option Some (dict_get c key) = Some val then rc_writes h else Suc (rc_writes h))
           \<and> (map_option Some (dict_get c key) = Some val \<longrightarrow> h' = h)
           \<and> ifconfig_out h' = ifconfig_out h \<and> resolv_conf h' = resolv_conf h
           \<and> rc_calls h' = rc_calls h \<and> cmds h' = cmds h"
proof -
  let ?conf = "map (\<lambda>(k, v). (k, Some v)) c"
  have wfc: "(\<forall>(k, v)\<in>set c. wf_key k \<and> wf_value v)" and dc: "distinct (map fst c)"
    using loadrcconf_wf[OF c[unfolded store_of_def]] by auto
  have keys: "map fst ?conf = map fst c" by (induction c) auto
  have get: "dict_get ?conf key = map_option Some (dict_get c key)"
    by (induction c) (auto simp: dict_get_def)
  have in_keys: "key \<in> set (map fst ?conf) \<longleftrightarrow> dict_get c key \<noteq> None"
    unfolding keys by (auto simp: dict_get_def map_of_eq_None_iff)
  let ?same = "map_option Some (dict_get c key) = Some val"
  have step: "(if key \<notin> set (map fst ?conf) then (dict_set key val ?conf, True)
               else change_items (map fst ?conf) key val (?conf, False))
              = (if ?same then (?conf, False) else (dict_set key val ?conf, True))"
  proof (cases "key \<in> set (map fst ?conf)")
    case True
    have "change_items (map fst ?conf) key val (?conf, False)
          = (if ?same then (?conf, False) else (dict_set key val ?conf, True))"
      unfolding change_items_eq get using True by (simp only: simp_thms) simp
    then show ?thesis by (simp only: True not_True_eq_False if_False)
  next
    case False
    then have "dict_get c key = None" using in_keys by blast
    then have "\<not> ?same" by simp
    then show ?thesis by (simp only: False not_False_eq_True if_True if_False)
  qed
  have upd: "updatercconf key val h =
      (case (if ?same then (?conf, False) else (dict_set key val ?conf, True)) of
         (conf', config_changed) \<Rightarrow>
           if config_changed
           then Inr (h\<lparr>rc_conf := Some (rcconf_text conf'), rc_writes := Suc (rc_writes h)\<rparr>)
           else Inr h)"
    unfolding updatercconf_def by (simp only: c[unfolded store_of_def] sum.case Let_def step)
  show ?thesis
  proof (cases ?same)
    case True
    then obtain s where s: "val = Some s" "dict_get c key = Some s" by (cases val) auto
    have "updatercconf key val h = Inr h"
      unfolding upd by (simp only: True) simp
    moreover have "dict_set key (py_str val) c = c" using s by (simp add: py_str_def dict_set_same)
    ultimately show ?thesis using c True by simp
  next
    case False
    let ?conf' = "dict_set key val ?conf"
    let ?h' = "h\<lparr>rc_conf := Some (rcconf_text ?conf'), rc_writes := Suc (rc_writes h)\<rparr>"
    have u: "updatercconf key val h = Inr ?h'"
      unfolding upd by (simp only: False if_False prod.case if_True)
    have wf': "\<forall>(a, b)\<in>set ?conf'. wf_key a \<and> wf_value (py_str b)"
    proof (clarify)
      fix a b
      assume "(a, b) \<in> set ?conf'"
      then consider "(a, b) = (key, val)" | "(a, b) \<in> set ?conf"
        using dict_set_values[of a b key val ?conf] by blast
      then show "wf_key a \<and> wf_value (py_str b)"
      proof cases
        case 1
        then show ?thesis using k v by simp
      next
        case 2
        then obtain s where "b = Some s" "(a, s) \<in> set c" by auto
        then show ?thesis using wfc by (fastforce simp: py_str_def)
      qed
    qed
    have "distinct (map fst ?conf)" unfolding keys by (rule dc)
    then have d': "distinct (map fst ?conf')" by (rule dict_set_distinct)
    have "map (\<lambda>(k, v). (k, py_str v)) ?conf' = dict_set key (py_str val) (map (\<lambda>(k, v). (k, py_str v)) ?conf)"
      using dict_set_map[of key py_str val ?conf] by simp
    moreover have "map (\<lambda>(k, v). (k, py_str v)) ?conf = c"
      by (induction c) (auto simp: py_str_def)
    ultimately have "store_of ?h' = Inr (dict_set key (py_str val) c)"
      using load_rcconf_text[OF wf' d'] by (simp add: store_of_def)
    then show ?thesis using u False by auto
  qed
qed

section \<open>The renderers: steps that cannot fail\<close>

lemma updatercconf_total:
  "store_of h = Inr c \<Longrightarrow> \<exists>h'. updatercconf key val h = Inr h'"
  by (simp add: updatercconf_def store_of_def Let_def split: prod.splits)

lemma re_split_acc_odd: "odd (length (re_split_acc b acc s))"
  by (induction b acc s rule: re_split_acc.induct) (auto split: option.splits)

lemma ifname_loop_even: "even (length bs) \<Longrightarrow> \<exists>r. ifname_loop kw bs mac = Inr r"
  by (induction kw bs mac rule: ifname_loop.induct) (auto split: option.splits)

lemma get_ifname_by_mac_total:
  assumes "ifconfig_out h = Some out"
  shows "\<exists>r. get_ifname_by_mac kw h mac = Inr r"
proof -
  have "odd (length (re_split out))" by (simp add: re_split_def re_split_acc_odd)
  then have "even (length (tl (re_split out)))" by (cases "re_split out") auto
  then show ?thesis using assms ifname_loop_even by (simp add: get_ifname_by_mac_def)
qed

lemma fb_resolve_name_total:
  assumes "ifconfig_out h = Some out" "store_of h = Inr c"
  shows "\<exists>h1 dn. fb_resolve_name iface h = Inr (h1, dn)"
proof -
  obtain r where r: "get_ifname_by_mac ''ether'' h (mac_address iface) = Inr r"
    using get_ifname_by_mac_total[OF assms(1)] by blast
  obtain h' where "updatercconf (''ifconfig_'' @ py_str r @ ''_name'') (name iface) h = Inr h'"
    using updatercconf_total[OF assms(2)] by blast
  then show ?thesis using r by (simp add: fb_resolve_name_def bind_err_def Let_def)
qed

lemma fb_configure_no_name:
  assumes "store_of h1 = Inr c"
  shows "fb_configure None sn (h1, ns, sd) = Inl TypeError"
proof (cases "subnet_type sn = Some ''static''")
  case False
  then show ?thesis
    by (simp add: fb_configure_def fb_write_ifconfig_def py_add_def bind_err_def)
next
  case True
  obtain h2 where "updatercconf ''defaultrouter'' (gateway sn) h1 = Inr h2"
    using updatercconf_total[OF assms] by blast
  then show ?thesis using True
    by (cases "address sn"; cases "netmask sn")
      (simp_all add: fb_configure_def fb_write_ifconfig_def py_add_def bind_err_def)
qed

section \<open>An interface without subnets\<close>

text \<open>
  C10, as amended. An interface whose \<open>subnets\<close> is empty or absent makes the loop raise
  \<open>IndexError\<close> at \<open>subnets[0]\<close>, and no later interface is reached: in the NetBSD
  renderer always, when \<open>ifconfig -a\<close> can be run; in the FreeBSD renderer when, besides,
  the name of the interface is not a loopback name and rc.conf can be loaded, so that the
  rename entry can be written.
\<close>

theorem empty_subnets_raise_IndexError:
  assumes "subnets iface = None \<or> subnets iface = Some []" and "ifconfig_out h = Some out"
  shows "nb_interfaces (iface # rest) (h, dhcp, ns, sd) = Inl IndexError
         \<and> (\<not> (truthy (name iface) \<and> is_lo (the (name iface))) \<longrightarrow> store_of h = Inr c \<longrightarrow>
              fb_interfaces (iface # rest) (h, ns, sd) = Inl IndexError)"
proof -
  have fs: "first_subnet iface = Inl IndexError"
    using assms(1) by (auto simp: first_subnet_def)
  obtain r where r: "get_ifname_by_mac ''address:'' h (mac_address iface) = Inr r"
    using get_ifname_by_mac_total[OF assms(2)] by blast
  have nb: "nb_interfaces (iface # rest) (h, dhcp, ns, sd) = Inl IndexError"
    using r fs by (simp add: nb_interface_def bind_err_def)
  have fb: "fb_interfaces (iface # rest) (h, ns, sd) = Inl IndexError"
    if nlo: "\<not> (truthy (name iface) \<and> is_lo (the (name iface)))" and st: "store_of h = Inr c"
  proof -
    obtain h1 dn where "fb_resolve_name iface h = Inr (h1, dn)"
      using fb_resolve_name_total[OF assms(2) st] by blast
    then show ?thesis using nlo fs by (auto simp: fb_interface_def bind_err_def)
  qed
  show ?thesis using nb fb by blast
qed

theorem empty_subnets_raise_IndexError_witness:
  "nb_interfaces [ex_eth0 None] (ex_host, [], [], []) = Inl IndexError
   \<and> fb_interfaces [ex_eth0 None] (ex_host, [], []) = Inl IndexError"
proof -
  have a: "subnets (ex_eth0 None) = None \<or> subnets (ex_eth0 None) = Some []"
    by (simp add: ex_eth0_def)
  have b: "ifconfig_out ex_host = Some ex_ifconfig" by (simp add: ex_host_def)
  have c: "\<not> (truthy (name (ex_eth0 None)) \<and> is_lo (the (name (ex_eth0 None))))"
    by (simp add: ex_eth0_def is_lo_def)
  have d: "store_of ex_host = Inr []"
    by (simp add: store_of_def ex_host_def loadrcconf_def splitlines_def)
  show ?thesis
    using empty_subnets_raise_IndexError[OF a b, of "[]" "[]" "[]" "[]" "[]"] c d by simp
qed

text \<open>
  The claim as it stands fails on the FreeBSD renderer: \<open>lo0\<close> without subnets is passed
  over by the \<open>continue\<close> of line 114 before \<open>subnets[0]\<close> is read, nothing is raised,
  and the interface after it is configured.
\<close>

theorem fb_loopback_without_subnets_counterexample:
  "fb_readrcconf [ex_named ''lo0'' None, ex_eth0 (Some [ex_subnet ''dhcp''])] ex_host ''ifconfig_eth0''
   = Inr (Some ''DHCP'')"
  by code_simp

section \<open>An interface whose name cannot be resolved\<close>

text \<open>
  C2, as amended. When an interface has not both a MAC address and a name, is not a
  loopback, has a first subnet, and the lookup by MAC finds no block, \<open>device_name\<close> is
  \<open>None\<close> and the FreeBSD renderer raises \<open>TypeError\<close> when it builds the key
  \<open>'ifconfig_' + device_name\<close> (rc.conf being loadable): the interface is not dropped, and
  the loop ends before any later interface.
\<close>

theorem fb_unresolved_name_aborts:
  assumes "\<not> (truthy (mac_address iface) \<and> truthy (name iface))"
    and "\<not> (truthy (name iface) \<and> is_lo (the (name iface)))"
    and "get_ifname_by_mac ''ether'' h (mac_address iface) = Inr None"
    and "first_subnet iface = Inr sn"
    and "store_of h = Inr c"
  shows "fb_interfaces (iface # rest) (h, ns, sd) = Inl TypeError"
proof -
  have "fb_resolve_name iface h = Inr (h, None)"
    using assms(1,3) by (auto simp: fb_resolve_name_def bind_err_def Let_def)
  then have "fb_interface iface (h, ns, sd) = Inl TypeError"
    using assms(2,4) fb_configure_no_name[OF assms(5)]
    by (auto simp: fb_interface_def bind_err_def)
  then show ?thesis by (simp add: bind_err_def)
qed

theorem fb_unresolved_name_aborts_witness:
  "fb_interfaces [ex_mac_only (Some [ex_subnet ''dhcp''])] (ex_host, [], []) = Inl TypeError"
proof -
  let ?i = "ex_mac_only (Some [ex_subnet ''dhcp''])"
  have a: "\<not> (truthy (mac_address ?i) \<and> truthy (name ?i))"
    by (simp add: ex_mac_only_def truthy_def)
  have b: "\<not> (truthy (name ?i) \<and> is_lo (the (name ?i)))"
    by (simp add: ex_mac_only_def truthy_def)
  have c: "get_ifname_by_mac ''ether'' ex_host (mac_address ?i) = Inr None"
    by code_simp
  have d: "first_subnet ?i = Inr (ex_subnet ''dhcp'')"
    by (simp add: first_subnet_def ex_mac_only_def)
  have e: "store_of ex_host = Inr []"
    by (simp add: store_of_def ex_host_def loadrcconf_def splitlines_def)
  show ?thesis
    using fb_unresolved_name_aborts[OF a b c d e, of "[]" "[]" "[]"] by simp
qed

text \<open>
  The claim as it stands fails: the interface that cannot be resolved is not skipped, and
  \<open>eth0\<close> after it is never rendered.
\<close>

theorem fb_unresolved_name_counterexample:
  "fb_interfaces [ex_mac_only (Some [ex_subnet ''dhcp'']), ex_eth0 (Some [ex_subnet ''dhcp''])]
     (ex_host, [], []) = Inl TypeError"
  by code_simp

section \<open>The default gateway of a static subnet\<close>

text \<open>
  C5. The claim is that the default-gateway key is upserted only if the subnet has a
  gateway and is left unchanged otherwise. The NetBSD renderer tests
  \<open>subnet.get('gateway')\<close> first; the FreeBSD renderer does not: on a machine whose
  rc.conf sets \<open>defaultrouter\<close> to \<open>10.0.0.1\<close>, a static subnet without a gateway
  replaces it by the word \<open>None\<close>.
\<close>

theorem fb_static_without_gateway_overwrites_defaultrouter:
  "readrcconf (rc_conf ex_host_routed) ''defaultrouter'' = Inr (Some ''10.0.0.1'')
   \<and> fb_readrcconf [ex_eth0 (Some [ex_static ''192.168.1.5'' None])] ex_host_routed ''defaultrouter''
       = Inr (Some ''None'')"
  by code_simp

section \<open>Loopback interfaces\<close>

text \<open>
  C9. The claim is that a loopback interface is skipped and is absent from the
  DHCP-interfaces aggregate. The FreeBSD renderer skips it; the NetBSD renderer has no
  such test: \<open>lo0\<close> with its loopback subnet is appended to \<open>dhcp_interfaces\<close> and
  \<open>dhcpcd_flags\<close> is set to \<open>lo0\<close>.
\<close>

theorem nb_loopback_joins_dhcp_interfaces:
  "nb_render [ex_named ''lo0'' (Some [ex_subnet ''loopback''])] (ex_host, [], [], [])
   = Inr (ex_host\<lparr>rc_calls := [(''dhcpcd'', ''YES''), (''dhcpcd_flags'', ''lo0'')]\<rparr>,
          [Some ''lo0''], [], [])"
  by (simp add: nb_render_def nb_interface_def nb_dhcpcd_def bind_err_def first_subnet_def
      ex_named_def ex_subnet_def truthy_def set_rc_config_value_def ex_host_def)

section \<open>Duplicate DNS entries\<close>

lemma add_nameservers_result:
  "\<exists>rc' lg'. add_nameservers servers (rc, lg) = Inr (rc', lg')
     \<and> set rc' = set rc \<union> Nameserver ` set servers
     \<and> (distinct rc \<longrightarrow> distinct rc')
     \<and> (\<exists>new. rc' = rc @ new)
     \<and> length rc' + length lg' = length rc + length lg + length servers"
proof (induction servers arbitrary: rc lg)
  case Nil
  then show ?case by simp
next
  case (Cons server servers)
  show ?case
  proof (cases "Nameserver server \<in> set rc")
    case True
    then have "add_nameservers (server # servers) (rc, lg)
               = add_nameservers servers (rc, lg @ [''Failed to add nameserver '' @ server])"
      by (simp add: add_nameserver_def)
    then show ?thesis
      using Cons[of rc "lg @ [''Failed to add nameserver '' @ server]"] True by auto
  next
    case False
    then have "add_nameservers (server # servers) (rc, lg)
               = add_nameservers servers (rc @ [Nameserver server], lg)"
      by (simp add: add_nameserver_def)
    then show ?thesis
      using Cons[of "rc @ [Nameserver server]" lg] False by auto
  qed
qed

lemma add_search_domains_result:
  "\<exists>rc' lg'. add_search_domains domains (rc, lg) = Inr (rc', lg')
     \<and> set rc' = set rc \<union> SearchDomain ` set domains
     \<and> (distinct rc \<longrightarrow> distinct rc')
     \<and> (\<exists>new. rc' = rc @ new)
     \<and> length rc' + length lg' = length rc + length lg + length domains"
proof (induction domains arbitrary: rc lg)
  case Nil
  then show ?case by simp
next
  case (Cons domain domains)
  show ?case
  proof (cases "SearchDomain domain \<in> set rc")
    case True
    then have "add_search_domains (domain # domains) (rc, lg)
               = add_search_domains domains (rc, lg @ [''Failed to add search domain '' @ domain])"
      by (simp add: add_search_domain_def)
    then show ?thesis
      using Cons[of rc "lg @ [''Failed to add search domain '' @ domain]"] True by auto
  next
    case False
    then have "add_search_domains (domain # domains) (rc, lg)
               = add_search_domains domains (rc @ [SearchDomain domain], lg)"
      by (simp add: add_search_domain_def)
    then show ?thesis
      using Cons[of "rc @ [SearchDomain domain]" lg] False by auto
  qed
qed

lemma distinct_count_one: "distinct xs \<Longrightarrow> x \<in> set xs \<Longrightarrow> count_list xs x = 1"
  by (induction xs) auto

text \<open>
  C8. \<open>ResolvConf\<close> is modelled from the spec, the two loops and their \<open>except\<close> clauses
  from the renderers. For all nameservers and search domains the merge returns: a
  duplicate is logged and the loop goes on, so every entry is either appended or logged.
  The directives that were there stay in front, in their order, and the new ones follow.
  When the configuration read had no directive twice, the result has none twice either:
  an address given twice, or present already, has exactly one directive. A render cycle
  whose loop over the interfaces has returned is not ended by the merge.
\<close>

theorem merge_dns_duplicates_nonfatal:
  "\<exists>h' rc' logged.
     merge_dns nameservers searchdomains h = Inr (h', logged)
     \<and> resolv_conf h' = Some rc'
     \<and> set rc' = set (case resolv_conf h of None \<Rightarrow> [] | Some rc \<Rightarrow> rc)
                   \<union> Nameserver ` set nameservers \<union> SearchDomain ` set searchdomains
     \<and> (\<exists>new. rc' = (case resolv_conf h of None \<Rightarrow> [] | Some rc \<Rightarrow> rc) @ new)
     \<and> length rc' + length logged
         = length (case resolv_conf h of None \<Rightarrow> [] | Some rc \<Rightarrow> rc)
           + length nameservers + length searchdomains
     \<and> (distinct (case resolv_conf h of None \<Rightarrow> [] | Some rc \<Rightarrow> rc) \<longrightarrow>
          distinct rc' \<and> (\<forall>a\<in>set nameservers. count_list rc' (Nameserver a) = 1)
          \<and> (\<forall>d\<in>set searchdomains. count_list rc' (SearchDomain d) = 1))
     \<and> (\<forall>st. fb_interfaces ifaces (h0, [], []) = Inr st \<longrightarrow>
            (\<exists>r. fb_write_network ifaces h0 = Inr r))
     \<and> (\<forall>st. nb_render ifaces (h0, dhcp, [], []) = Inr st \<longrightarrow>
            (\<exists>r. nb_write_network postcmds ifaces dhcp h0 = Inr r))"
proof -
  define rc0 where "rc0 = (case resolv_conf h of None \<Rightarrow> [] | Some rc \<Rightarrow> rc)"
  have total: "\<exists>h' lg. merge_dns ns sd g = Inr (h', lg)" for ns sd g
  proof -
    obtain rc1 lg1 where a: "add_nameservers ns
        ((case resolv_conf g of None \<Rightarrow> [] | Some rc \<Rightarrow> rc), []) = Inr (rc1, lg1)"
      using add_nameservers_result by blast
    obtain rc2 lg2 where b: "add_search_domains sd (rc1, lg1) = Inr (rc2, lg2)"
      using add_search_domains_result by blast
    show ?thesis using a b by (simp add: merge_dns_def bind_err_def Let_def)
  qed
  obtain rc1 lg1 where a: "add_nameservers nameservers (rc0, []) = Inr (rc1, lg1)"
    and a1: "set rc1 = set rc0 \<union> Nameserver ` set nameservers"
    and a2: "distinct rc0 \<longrightarrow> distinct rc1"
    and a3: "\<exists>new. rc1 = rc0 @ new"
    and a4: "length rc1 + length lg1 = length rc0 + length ([]::string list) + length nameservers"
    using add_nameservers_result[of nameservers rc0 "[]"] by blast
  obtain rc2 lg2 where b: "add_search_domains searchdomains (rc1, lg1) = Inr (rc2, lg2)"
    and b1: "set rc2 = set rc1 \<union> SearchDomain ` set searchdomains"
    and b2: "distinct rc1 \<longrightarrow> distinct rc2"
    and b3: "\<exists>new. rc2 = rc1 @ new"
    and b4: "length rc2 + length lg2 = length rc1 + length lg1 + length searchdomains"
    using add_search_domains_result[of searchdomains rc1 lg1] by blast
  have m: "merge_dns nameservers searchdomains h = Inr (h\<lparr>resolv_conf := Some rc2\<rparr>, lg2)"
    using a b by (simp add: merge_dns_def bind_err_def Let_def rc0_def)
  have s: "set rc2 = set rc0 \<union> Nameserver ` set nameservers \<union> SearchDomain ` set searchdomains"
    using a1 b1 by simp
  have p: "\<exists>new. rc2 = rc0 @ new" using a3 b3 by auto
  have l: "length rc2 + length lg2 = length rc0 + length nameservers + length searchdomains"
    using a4 b4 by simp
  have d: "distinct rc0 \<longrightarrow> distinct rc2 \<and> (\<forall>a\<in>set nameservers. count_list rc2 (Nameserver a) = 1)
          \<and> (\<forall>d\<in>set searchdomains. count_list rc2 (SearchDomain d) = 1)"
    using a2 b2 s distinct_count_one[of rc2] by auto
  have fb: "\<forall>st. fb_interfaces ifaces (h0, [], []) = Inr st \<longrightarrow>
            (\<exists>r. fb_write_network ifaces h0 = Inr r)"
    using total by (auto simp: fb_write_network_def bind_err_def)
  have nb: "\<forall>st. nb_render ifaces (h0, dhcp, [], []) = Inr st \<longrightarrow>
            (\<exists>r. nb_write_network postcmds ifaces dhcp h0 = Inr r)"
  proof (intro allI impI)
    fix st
    assume r: "nb_render ifaces (h0, dhcp, [], []) = Inr st"
    obtain h1 dh ns sd where st: "st = (h1, dh, ns, sd)" by (cases st) auto
    obtain h2 lg where "merge_dns ns sd h1 = Inr (h2, lg)" using total by blast
    then show "\<exists>r. nb_write_network postcmds ifaces dhcp h0 = Inr r"
      using r st by (simp add: nb_write_network_def bind_err_def)
  qed
  show ?thesis
    unfolding rc0_def[symmetric]
    using m s p l d fb nb by (intro exI[of _ "h\<lparr>resolv_conf := Some rc2\<rparr>"] exI[of _ rc2] exI[of _ lg2]) simp
qed

theorem merge_dns_duplicates_nonfatal_witness:
  "merge_dns [''8.8.8.8'', ''8.8.8.8''] [] ex_host
   = Inr (ex_host\<lparr>resolv_conf := Some [Nameserver ''8.8.8.8'']\<rparr>, [''Failed to add nameserver 8.8.8.8''])
   \<and> count_list [Nameserver ''8.8.8.8''] (Nameserver ''8.8.8.8'') = 1"
  using merge_dns_duplicates_nonfatal[of "[''8.8.8.8'', ''8.8.8.8'']" "[]" ex_host "[]" ex_host "[]" True]
  by (simp add: merge_dns_def bind_err_def add_nameserver_def ex_host_def)

end
